theory Spec2Isabelle
  imports Main "HOL-Library.Sublist"
begin

section \<open>JavaScript strings and arrays\<close>

text \<open>
  A JavaScript string is modelled as a \<^typ>\<open>string\<close> (a list of characters), an array
  as a list, and \<open>undefined\<close> as \<open>None\<close>. The helpers below are the library calls that
  the two source files make, restricted to the way they are called there: the separator of
  \<open>split\<close> is always a single character, and the replacement text of \<open>replace\<close> holds
  no \<open>$\<close> pattern.
\<close>

text \<open>
  The errors of a run: a \<open>TypeError\<close> (a property read or a call on \<open>undefined\<close> or
  \<open>null\<close>), a file that is not there (with its path), and any other error, with its text.
\<close>

datatype js_error =
    TypeError
  | ENOENT string
  | OtherError string

text \<open>\<open>s.split(sep)\<close> for a one-character separator: never an empty array.\<close>

fun split_js :: "char \<Rightarrow> string \<Rightarrow> string list" where
  "split_js sep [] = [[]]"
| "split_js sep (c # cs) =
     (if c = sep then [] # split_js sep cs
      else (case split_js sep cs of
              [] \<Rightarrow> [[c]]
            | s # ss \<Rightarrow> (c # s) # ss))"

text \<open>\<open>s.replace(pat, rep)\<close> with a string pattern: only the first occurrence is replaced.\<close>

fun replace_first :: "string \<Rightarrow> string \<Rightarrow> string \<Rightarrow> string" where
  "replace_first pat rep [] = (if pat = [] then rep else [])"
| "replace_first pat rep (c # cs) =
     (if prefix pat (c # cs) then rep @ drop (length pat) (c # cs)
      else c # replace_first pat rep cs)"

text \<open>\<open>xs[i]\<close>: \<open>undefined\<close> out of range.\<close>

definition index_js :: "'a list \<Rightarrow> nat \<Rightarrow> 'a option" where
  "index_js xs i = (if i < length xs then Some (xs ! i) else None)"

definition includes_js :: "'a list \<Rightarrow> 'a \<Rightarrow> bool" where
  "includes_js xs x = (x \<in> set xs)"

definition startsWith :: "string \<Rightarrow> string \<Rightarrow> bool" where
  "startsWith s p = (take (length p) s = p)"

definition endsWith :: "string \<Rightarrow> string \<Rightarrow> bool" where
  "endsWith s p = (length p \<le> length s \<and> drop (length s - length p) s = p)"

text \<open>\<open>xs.join(sep)\<close>.\<close>

fun join_js :: "string \<Rightarrow> string list \<Rightarrow> string" where
  "join_js sep [] = []"
| "join_js sep [x] = x"
| "join_js sep (x # y # ys) = x @ sep @ join_js sep (y # ys)"

section \<open>The tag filter of a path: \<open>useSelectedTags\<close>\<close>

text \<open>
  The function splits the path (after replacing the first \<open>%20\<close>) on \<open>/\<close>, takes the
  segment at index 2 when it is a non-empty string holding a \<open>+\<close> and the default filter
  otherwise, splits that on \<open>+\<close> and destructures the first two parts, and returns the part
  after the first \<open>:\<close> of each. A method call on \<open>undefined\<close> is a \<open>TypeError\<close>; an index
  out of range is \<open>undefined\<close>, which is a value and not an error.
\<close>

definition useSelectedTags :: "string \<Rightarrow> js_error + (string option \<times> string option)" where
  "useSelectedTags pathname =
     (let splittedString = split_js CHR ''/'' (replace_first ''%20'' '' '' pathname);
          filterString =
            (case index_js splittedString 2 of
               None \<Rightarrow> ''lang:all+topic:all''
             | Some seg \<Rightarrow>
                 if seg \<noteq> [] \<and> includes_js seg CHR ''+'' then seg
                 else ''lang:all+topic:all'');
          parts = split_js CHR ''+'' filterString;
          languageFilter = index_js parts 0;
          topicFilter = index_js parts 1
      in case languageFilter of
           None \<Rightarrow> Inl TypeError
         | Some l \<Rightarrow>
             (case topicFilter of
                None \<Rightarrow> Inl TypeError
              | Some t \<Rightarrow>
                  Inr (index_js (split_js CHR '':'' l) 1, index_js (split_js CHR '':'' t) 1)))"

section \<open>The image index: \<open>useImages\<close>\<close>

text \<open>
  A node carries string-valued properties (such as \<open>name\<close>) and, when the file is an image
  that was processed, a \<open>childImageSharp\<close> object holding the \<open>gatsbyImageData\<close> payload.
  The result object is modelled by the map of its own properties, from string keys to
  payloads; a property that a node lacks is \<open>undefined\<close>, which JavaScript turns into the
  key \<open>undefined\<close>. Reading \<open>gatsbyImageData\<close> of a missing \<open>childImageSharp\<close> is a
  \<open>TypeError\<close>. The memoisation of \<open>useMemo\<close> does not change the value returned.
\<close>

record 'img image_sharp =
  gatsbyImageData :: 'img

record 'img image_node =
  props :: "string \<rightharpoonup> string"
  childImageSharp :: "'img image_sharp option"

definition property_key :: "'img image_node \<Rightarrow> string \<Rightarrow> string" where
  "property_key node property =
     (case props node property of None \<Rightarrow> ''undefined'' | Some v \<Rightarrow> v)"

text \<open>
  The assignment \<open>images[key] = v\<close> on the object literal \<open>{}\<close>. The object inherits
  from \<open>Object.prototype\<close>, whose only accessor property is \<open>__proto__\<close>: an assignment to
  that key runs the inherited setter (which changes the prototype when \<open>v\<close> is an object,
  and does nothing otherwise) and creates no own property. Every other key becomes an own
  property holding \<open>v\<close>, replacing what was there. The payloads are plain data, so a
  prototype changed in this way brings no setter of its own.
\<close>

definition assign_property :: "(string \<rightharpoonup> 'v) \<Rightarrow> string \<Rightarrow> 'v \<Rightarrow> (string \<rightharpoonup> 'v)" where
  "assign_property obj key v = (if key = ''__proto__'' then obj else obj(key \<mapsto> v))"

fun images_loop ::
  "'img image_node list \<Rightarrow> string \<Rightarrow> (string \<rightharpoonup> 'img) \<Rightarrow> js_error + (string \<rightharpoonup> 'img)" where
  "images_loop [] property images = Inr images"
| "images_loop (node # nodes) property images =
     (case childImageSharp node of
        None \<Rightarrow> Inl TypeError
      | Some sharp \<Rightarrow>
          images_loop nodes property
            (assign_property images (property_key node property) (gatsbyImageData sharp)))"

text \<open>The second argument is optional in the source and defaults to \<open>name\<close>.\<close>

definition useImages ::
  "'img image_node list \<Rightarrow> string option \<Rightarrow> js_error + (string \<rightharpoonup> 'img)" where
  "useImages nodes property_arg =
     (let property = (case property_arg of None \<Rightarrow> ''name'' | Some p \<Rightarrow> p)
      in images_loop nodes property Map.empty)"

text \<open>The payload a node contributes, when it has one.\<close>

definition node_payload :: "'img image_node \<Rightarrow> 'img option" where
  "node_payload node = map_option gatsbyImageData (childImageSharp node)"

section \<open>The description updater\<close>

subsection \<open>Data\<close>

record snippet =
  snippet_title :: string
  snippet_description :: string
  snippet_categoryId :: string

record requestBody =
  requestBody_id :: string
  requestBody_snippet :: snippet

text \<open>
  The video service: \<open>videos_list\<close> answers \<open>service.videos.list\<close> for a video id with the
  snippets of \<open>res.data.items\<close> or with the error it throws, \<open>videos_update\<close> answers
  \<open>service.videos.update\<close> for a request body.
\<close>

record service =
  videos_list :: "string \<Rightarrow> js_error + snippet list"
  videos_update :: "requestBody \<Rightarrow> js_error + unit"

record video =
  video_slug :: string
  video_videoId :: string
  video_title :: string
  video_canonicalTrack :: string
  video_canonicalURL :: string

record track =
  track_slug :: string
  track_title :: string
  track_videos :: "video list"

record metadata =
  metadata_videos :: "video list"
  metadata_tracks :: "track list"

text \<open>
  What a run does is recorded as the list of its observable events, in order: console
  output, the two selection prompts with their choices (name and value of each), the calls
  to the video service, and an exception that leaves \<open>main\<close>.
\<close>

datatype event =
    ConsoleLog string
  | ConsoleLogErr string js_error
  | ConsoleErrorErr string js_error
  | Prompt string "(string \<times> string) list"
  | VideosList string
  | VideosUpdate requestBody
  | Uncaught js_error

text \<open>
  The surroundings of a run: the content of \<open>google-credentials/client_secret.json\<close> or the
  error of reading it; the outcome of \<open>authorize\<close> on that content (the parse of the
  secret and the OAuth exchange are represented by their outcome only); the entries of the
  \<open>_descriptions\<close> directory as pairs of file name and content, \<open>None\<close> when the directory
  does not exist; \<open>JSON.parse\<close> on the metadata file; and the answers of the user to the
  two prompts, given the choices shown.
\<close>

record world =
  client_secret :: "js_error + string"
  authorize :: "string \<Rightarrow> js_error + service"
  descriptions :: "(string \<times> string) list option"
  parse_metadata :: "string \<Rightarrow> js_error + metadata"
  answer_track :: "(string \<times> string) list \<Rightarrow> string"
  answer_video :: "(string \<times> string) list \<Rightarrow> string"

subsection \<open>\<open>updateYTDesc\<close>\<close>

definition updateYTDesc :: "string \<Rightarrow> string \<Rightarrow> service \<Rightarrow> event list" where
  "updateYTDesc videoId newDescription service =
     VideosList videoId #
     (case videos_list service videoId of
        Inl err \<Rightarrow> [ConsoleErrorErr ''The API returned an error: '' err]
      | Inr items \<Rightarrow>
          (case items of
             [] \<Rightarrow> [ConsoleErrorErr ''The API returned an error: '' TypeError]
           | video # _ \<Rightarrow>
               let oldDescription = snippet_description video in
               if oldDescription = newDescription
               then [ConsoleLog ''Description is already up to date.'']
               else
                 let body = \<lparr>requestBody_id = videoId,
                             requestBody_snippet =
                               \<lparr>snippet_title = snippet_title video,
                                snippet_description = newDescription,
                                snippet_categoryId = snippet_categoryId video\<rparr>\<rparr>
                 in VideosUpdate body #
                    (case videos_update service body of
                       Inl err \<Rightarrow> [ConsoleErrorErr ''The API returned an error: '' err]
                     | Inr _ \<Rightarrow> [ConsoleLog ''Updated video description.''])))"

subsection \<open>\<open>main\<close>\<close>

text \<open>
  The video ids named by the directory entries (lines 179 to 182 of the script): of each
  entry that does not end in \<open>json\<close>, the text before the first \<open>.\<close> is split on \<open>_\<close>,
  its first part is dropped and the others are joined again. The head taken is that of a
  split, which is never empty.
\<close>

definition entry_videoId :: "string \<Rightarrow> string" where
  "entry_videoId f = join_js ''_'' (drop 1 (split_js CHR ''_'' (hd (split_js CHR ''.'' f))))"

definition main_videoIds :: "string list \<Rightarrow> string list" where
  "main_videoIds entries = map entry_videoId (filter (\<lambda>f. \<not> endsWith f ''json'') entries)"

text \<open>The videos of the metadata that have such an id (line 187).\<close>

definition main_videos :: "metadata \<Rightarrow> string list \<Rightarrow> video list" where
  "main_videos md videoIds = filter (\<lambda>x. includes_js videoIds (video_videoId x)) (metadata_videos md)"

text \<open>The tracks offered (lines 188 to 205).\<close>

definition main_tracks :: "metadata \<Rightarrow> video list \<Rightarrow> track list" where
  "main_tracks md videos =
     (let tracks =
            filter (\<lambda>track. length (track_videos track) > 0)
              (map (\<lambda>track. track\<lparr>track_videos :=
                        filter (\<lambda>video. video_canonicalTrack video = track_slug track) videos\<rparr>)
                 (metadata_tracks md));
          challengeVideos =
            filter (\<lambda>video. startsWith (video_canonicalURL video) ''challenges'') videos
      in if length challengeVideos > 0
         then tracks @ [\<lparr>track_slug = ''challenges'', track_title = ''Coding Challenges'',
                          track_videos = challengeVideos\<rparr>]
         else tracks)"

text \<open>The name of the description file of a video inside \<open>_descriptions\<close> (line 239).\<close>

definition description_file :: "video \<Rightarrow> string" where
  "description_file video = video_slug video @ ''_'' @ video_videoId video @ ''.txt''"

text \<open>The two prompts, the read of the description and the update (lines 207 to 243).\<close>

definition main_select ::
  "world \<Rightarrow> service \<Rightarrow> (string \<times> string) list \<Rightarrow> track list \<Rightarrow> event list" where
  "main_select w service files tracks =
     (let trackChoices = map (\<lambda>track. (track_title track, track_slug track)) tracks;
          trackSlug = answer_track w trackChoices
      in Prompt ''Select a track to update:'' trackChoices #
         (case find (\<lambda>x. track_slug x = trackSlug) tracks of
            None \<Rightarrow> [Uncaught TypeError]
          | Some track \<Rightarrow>
              let videoChoices =
                    map (\<lambda>video. (video_title video @ '' ('' @ video_videoId video @ '')'',
                                   video_videoId video))
                      (track_videos track);
                  videoId = answer_video w videoChoices
              in Prompt ''Select a video to update:'' videoChoices #
                 (case find (\<lambda>video. video_videoId video = videoId) (track_videos track) of
                    None \<Rightarrow> [Uncaught TypeError]
                  | Some video \<Rightarrow>
                      ConsoleLog (join_js '' '' [''Updating description for video...'',
                                    video_title video, ''('' @ video_videoId video @ '')'']) #
                      (case map_of files (description_file video) of
                         None \<Rightarrow> [Uncaught (ENOENT (''_descriptions/'' @ description_file video))]
                       | Some newDescription \<Rightarrow>
                           updateYTDesc (video_videoId video) newDescription service))))"

definition no_descriptions_message :: string where
  "no_descriptions_message =
     ''No generated descriptions available. Try generating them first by using the yt-desc script.''"

definition main :: "world \<Rightarrow> event list" where
  "main w =
     (case client_secret w of
        Inl err \<Rightarrow> [ConsoleLogErr ''Error loading client secret file: '' err]
      | Inr content \<Rightarrow>
          (case authorize w content of
             Inl err \<Rightarrow> [Uncaught err]
           | Inr service \<Rightarrow>
               (case descriptions w of
                  None \<Rightarrow> [ConsoleLog no_descriptions_message]
                | Some files \<Rightarrow>
                    if length (map fst files) = 0
                    then [ConsoleLog no_descriptions_message]
                    else
                      let videoIds = main_videoIds (map fst files) in
                      (case map_of files ''metadata.json'' of
                         None \<Rightarrow> [Uncaught (ENOENT ''_descriptions/metadata.json'')]
                       | Some text \<Rightarrow>
                           (case parse_metadata w text of
                              Inl err \<Rightarrow> [Uncaught err]
                            | Inr md \<Rightarrow>
                                main_select w service files
                                  (main_tracks md (main_videos md videoIds)))))))"

subsection \<open>Example runs\<close>

text \<open>
  An image node with a name and a payload, a service whose video has the description
  \<open>old\<close>, and three states of the
  \<open>_descriptions\<close> directory around the same metadata of one video with slug \<open>bar\<close> and
  id \<open>abc\<close>: the directory holds only the metadata file; it holds a description file
  written for the slug \<open>foo\<close>; it holds the description file of the video.
\<close>

definition example_node :: "string \<Rightarrow> nat \<Rightarrow> nat image_node" where
  "example_node name payload =
     \<lparr>props = [''name'' \<mapsto> name], childImageSharp = Some \<lparr>gatsbyImageData = payload\<rparr>\<rparr>"

definition example_service :: service where
  "example_service =
     \<lparr>videos_list = (\<lambda>videoId. Inr [\<lparr>snippet_title = ''T'', snippet_description = ''old'',
                                         snippet_categoryId = ''27''\<rparr>]),
      videos_update = (\<lambda>body. Inr ())\<rparr>"

definition example_metadata :: metadata where
  "example_metadata =
     \<lparr>metadata_videos =
        [\<lparr>video_slug = ''bar'', video_videoId = ''abc'', video_title = ''T'',
          video_canonicalTrack = ''t1'', video_canonicalURL = ''challenges/1-bar''\<rparr>],
      metadata_tracks =
        [\<lparr>track_slug = ''t1'', track_title = ''Track 1'', track_videos = []\<rparr>,
         \<lparr>track_slug = ''t2'', track_title = ''Track 2'', track_videos = []\<rparr>]\<rparr>"

definition example_world :: "(string \<times> string) list \<Rightarrow> world" where
  "example_world files =
     \<lparr>client_secret = Inr ''{}'',
      authorize = (\<lambda>content. Inr example_service),
      descriptions = Some files,
      parse_metadata = (\<lambda>text. Inr example_metadata),
      answer_track = (\<lambda>choices. ''t1''),
      answer_video = (\<lambda>choices. ''abc'')\<rparr>"

definition files_only_metadata :: "(string \<times> string) list" where
  "files_only_metadata = [(''metadata.json'', ''{}'')]"

definition files_other_slug :: "(string \<times> string) list" where
  "files_other_slug = [(''foo_abc.txt'', ''new''), (''metadata.json'', ''{}'')]"

definition files_consistent :: "(string \<times> string) list" where
  "files_consistent = [(''bar_abc.txt'', ''new''), (''metadata.json'', ''{}'')]"

section \<open>Facts about the string helpers\<close>

lemma split_js_not_Nil: "split_js sep s \<noteq> []"
  by (induction s) (auto split: list.splits)

lemma split_js_no_sep: "sep \<notin> set s \<Longrightarrow> split_js sep s = [s]"
  by (induction s) auto

lemma split_js_append: "sep \<notin> set a \<Longrightarrow> split_js sep (a @ sep # b) = a # split_js sep b"
  by (induction a) auto

lemma split_js_two: "sep \<in> set s \<Longrightarrow> \<exists>a b rest. split_js sep s = a # b # rest"
proof (induction s)
  case Nil
  then show ?case by simp
next
  case (Cons c cs)
  show ?case
  proof (cases "c = sep")
    case True
    then show ?thesis
      using split_js_not_Nil [of sep cs] by (cases "split_js sep cs") auto
  next
    case False
    with Cons show ?thesis by auto
  qed
qed

lemma replace_first_absent: "\<not> sublist pat s \<Longrightarrow> replace_first pat rep s = s"
proof (induction s)
  case Nil
  then show ?case by auto
next
  case (Cons c cs)
  then show ?case by (auto simp: sublist_Cons_right)
qed

text \<open>
  When the pattern does not occur before position \<open>length a\<close>, the occurrence at that
  position is the one replaced, and the text after it is kept as it is.
\<close>

lemma replace_first_occurrence:
  assumes "pat \<noteq> []" and "\<not> sublist pat (a @ butlast pat)"
  shows "replace_first pat rep (a @ pat @ b) = a @ rep @ b"
  using assms
proof (induction a)
  case Nil
  then show ?case by (cases pat) auto
next
  case (Cons c a)
  have np: "\<not> prefix pat ((c # a) @ butlast pat)"
    using Cons.prems(2) by (simp add: sublist_Cons_right)
  have "\<not> prefix pat (c # a @ pat @ b)"
  proof
    assume p: "prefix pat (c # a @ pat @ b)"
    have q: "prefix ((c # a) @ butlast pat) (c # a @ pat @ b)"
      using Cons.prems(1)
      by (simp add: prefixI butlast_conv_take)
        (metis append_take_drop_id prefixI append.assoc)
    have "length pat \<le> length ((c # a) @ butlast pat)"
      using Cons.prems(1) by (cases pat) auto
    with p q have "prefix pat ((c # a) @ butlast pat)"
      using prefix_length_prefix by blast
    with np show False ..
  qed
  moreover have "\<not> sublist pat (a @ butlast pat)"
    using Cons.prems(2) by (simp add: sublist_Cons_right)
  ultimately show ?case using Cons.IH Cons.prems(1) by simp
qed

lemma no_percent_no_occurrence:
  "CHR ''%'' \<notin> set a \<Longrightarrow> \<not> sublist ''%20'' (a @ ''%2'')"
  by (induction a) (auto simp: sublist_Cons_right)

section \<open>Properties of \<open>useSelectedTags\<close>\<close>

lemma segment_at_2:
  assumes "CHR ''/'' \<notin> set s0" "CHR ''/'' \<notin> set s1" "CHR ''/'' \<notin> set seg"
    and "rest = [] \<or> hd rest = CHR ''/''"
  shows "index_js (split_js CHR ''/'' (s0 @ ''/'' @ s1 @ ''/'' @ seg @ rest)) 2 = Some seg"
proof -
  have "\<exists>ss. split_js CHR ''/'' (seg @ rest) = seg # ss"
  proof (cases rest)
    case Nil
    then show ?thesis using assms(3) by (simp add: split_js_no_sep)
  next
    case (Cons c r)
    then have "rest = CHR ''/'' # r" using assms(4) by simp
    then show ?thesis using assms(3) by (simp add: split_js_append)
  qed
  then obtain ss where "split_js CHR ''/'' (seg @ rest) = seg # ss" ..
  then have "split_js CHR ''/'' (s0 @ ''/'' @ s1 @ ''/'' @ seg @ rest) = s0 # s1 # seg # ss"
    using assms(1,2) by (simp add: split_js_append)
  then show ?thesis by (simp add: index_js_def)
qed

lemma filter_parts:
  assumes "CHR ''+'' \<notin> set l" "CHR ''+'' \<notin> set t" "CHR '':'' \<notin> set l" "CHR '':'' \<notin> set t"
  shows "split_js CHR ''+'' (''lang:'' @ l @ ''+topic:'' @ t) = [''lang:'' @ l, ''topic:'' @ t]"
    and "index_js (split_js CHR '':'' (''lang:'' @ l)) 1 = Some l"
    and "index_js (split_js CHR '':'' (''topic:'' @ t)) 1 = Some t"
proof -
  have "split_js CHR ''+'' ((''lang:'' @ l) @ CHR ''+'' # (''topic:'' @ t)) =
      (''lang:'' @ l) # split_js CHR ''+'' (''topic:'' @ t)"
    by (rule split_js_append) (use assms(1) in simp)
  moreover have "split_js CHR ''+'' (''topic:'' @ t) = [''topic:'' @ t]"
    by (rule split_js_no_sep) (use assms(2) in simp)
  ultimately show
    "split_js CHR ''+'' (''lang:'' @ l @ ''+topic:'' @ t) = [''lang:'' @ l, ''topic:'' @ t]"
    by simp
  have "split_js CHR '':'' (''lang'' @ CHR '':'' # l) = ''lang'' # split_js CHR '':'' l"
    by (rule split_js_append) simp
  then show "index_js (split_js CHR '':'' (''lang:'' @ l)) 1 = Some l"
    using assms(3) by (simp add: split_js_no_sep index_js_def)
  have "split_js CHR '':'' (''topic'' @ CHR '':'' # t) = ''topic'' # split_js CHR '':'' t"
    by (rule split_js_append) simp
  then show "index_js (split_js CHR '':'' (''topic:'' @ t)) 1 = Some t"
    using assms(4) by (simp add: split_js_no_sep index_js_def)
qed

lemma useSelectedTags_segment:
  assumes q: "replace_first ''%20'' '' '' p =
      s0 @ ''/'' @ s1 @ ''/'' @ (''lang:'' @ l @ ''+topic:'' @ t) @ rest"
    and "CHR ''/'' \<notin> set s0" "CHR ''/'' \<notin> set s1" "CHR ''/'' \<notin> set l" "CHR ''/'' \<notin> set t"
    and "rest = [] \<or> hd rest = CHR ''/''"
    and "CHR ''+'' \<notin> set l" "CHR ''+'' \<notin> set t" "CHR '':'' \<notin> set l" "CHR '':'' \<notin> set t"
  shows "useSelectedTags p = Inr (Some l, Some t)"
proof -
  let ?seg = "''lang:'' @ l @ ''+topic:'' @ t"
  have "CHR ''/'' \<notin> set ?seg" using assms(4,5) by simp
  with assms(2,3,6)
  have seg: "index_js (split_js CHR ''/'' (replace_first ''%20'' '' '' p)) 2 = Some ?seg"
    unfolding q by (intro segment_at_2)
  have plus: "?seg \<noteq> [] \<and> includes_js ?seg CHR ''+''"
    by (simp add: includes_js_def)
  show ?thesis
    unfolding useSelectedTags_def Let_def seg option.case
    using plus filter_parts [OF assms(7-10)]
    by (simp add: index_js_def)
qed

text \<open>
  The filter string that is split on \<open>+\<close> always holds a \<open>+\<close>, so both destructured parts
  are strings and no call in the function is made on \<open>undefined\<close>.
\<close>

lemma useSelectedTags_total: "\<exists>lang topic. useSelectedTags p = Inr (lang, topic)"
proof -
  define filterString where "filterString =
            (case index_js (split_js CHR ''/'' (replace_first ''%20'' '' '' p)) 2 of
               None \<Rightarrow> ''lang:all+topic:all''
             | Some seg \<Rightarrow>
                 if seg \<noteq> [] \<and> includes_js seg CHR ''+'' then seg
                 else ''lang:all+topic:all'')"
  have "CHR ''+'' \<in> set filterString"
    by (auto simp: filterString_def includes_js_def split: option.splits)
  then obtain a b rest where "split_js CHR ''+'' filterString = a # b # rest"
    using split_js_two by blast
  then show ?thesis
    unfolding useSelectedTags_def Let_def filterString_def [symmetric]
    by (simp add: index_js_def)
qed

text \<open>
  Claim C1, as the code has it. The token is taken from the segment at index 2 of the path
  split on \<open>/\<close> (after the first \<open>%20\<close> became a space). A path that starts with \<open>/\<close> has
  the empty string as segment 0, so segment 2 is the second name of the path: for a path
  \<open>s0/s1/lang:l+topic:t\<close>, followed by nothing or by further segments, where \<open>s0\<close>
  (possibly empty) and \<open>s1\<close> hold no \<open>/\<close> and \<open>l\<close> and \<open>t\<close> hold none of \<open>/\<close>, \<open>+\<close>,
  \<open>:\<close>, the function returns the pair \<open>(l, t)\<close>.
\<close>

theorem useSelectedTags_extracts_segment_2:
  assumes "replace_first ''%20'' '' '' pathname =
      s0 @ ''/'' @ s1 @ ''/'' @ (''lang:'' @ l @ ''+topic:'' @ t) @ rest"
    and "CHR ''/'' \<notin> set s0" and "CHR ''/'' \<notin> set s1"
    and "CHR ''/'' \<notin> set l" and "CHR ''/'' \<notin> set t"
    and "rest = [] \<or> hd rest = CHR ''/''"
    and "CHR ''+'' \<notin> set l" and "CHR ''+'' \<notin> set t"
    and "CHR '':'' \<notin> set l" and "CHR '':'' \<notin> set t"
  shows "useSelectedTags pathname = Inr (Some l, Some t)"
  using assms by (rule useSelectedTags_segment)

text \<open>The path \<open>/x/lang:en+topic:math\<close> gives \<open>(en, math)\<close>.\<close>

theorem useSelectedTags_extracts_segment_2_witness:
  "useSelectedTags ''/x/lang:en+topic:math'' = Inr (Some ''en'', Some ''math'')"
  using useSelectedTags_extracts_segment_2
    [of "''/x/lang:en+topic:math''" "[]" "''x''" "''en''" "''math''" "[]"]
  by simp

text \<open>
  For the path \<open>/x/y/lang:en+topic:math\<close> of the specification, segment 2 is \<open>y\<close>, which
  holds no \<open>+\<close>: the default filter is used and the result is \<open>(all, all)\<close>.
\<close>

theorem useSelectedTags_spec_example_counterexample:
  "useSelectedTags ''/x/y/lang:en+topic:math'' = Inr (Some ''all'', Some ''all'') \<and>
   useSelectedTags ''/x/y/lang:en+topic:math'' \<noteq> Inr (Some ''en'', Some ''math'')"
  by (simp add: useSelectedTags_def index_js_def includes_js_def)

text \<open>
  Claim C4, as the code has it. When segment 2 holds a \<open>+\<close>, whatever else it holds, the
  function returns a pair and raises nothing: the two parts around the first \<open>+\<close> are
  strings, and a part without \<open>:\<close> gives \<open>undefined\<close> as its component of the pair.
\<close>

theorem useSelectedTags_malformed_returns:
  assumes "index_js (split_js CHR ''/'' (replace_first ''%20'' '' '' pathname)) 2 = Some seg"
    and "CHR ''+'' \<in> set seg"
  shows "\<exists>l t ps. split_js CHR ''+'' seg = l # t # ps \<and>
           useSelectedTags pathname =
             Inr (index_js (split_js CHR '':'' l) 1, index_js (split_js CHR '':'' t) 1) \<and>
           (CHR '':'' \<notin> set l \<longrightarrow> index_js (split_js CHR '':'' l) 1 = None) \<and>
           (CHR '':'' \<notin> set t \<longrightarrow> index_js (split_js CHR '':'' t) 1 = None)"
proof -
  obtain l t ps where parts: "split_js CHR ''+'' seg = l # t # ps"
    using split_js_two [OF assms(2)] by blast
  have "seg \<noteq> []" using assms(2) by auto
  then have "useSelectedTags pathname =
      Inr (index_js (split_js CHR '':'' l) 1, index_js (split_js CHR '':'' t) 1)"
    unfolding useSelectedTags_def Let_def assms(1) option.case
    using assms(2) parts by (simp add: includes_js_def index_js_def)
  moreover have "index_js (split_js CHR '':'' s) 1 = None" if "CHR '':'' \<notin> set s" for s
    using that by (simp add: split_js_no_sep index_js_def)
  ultimately show ?thesis using parts by blast
qed

theorem useSelectedTags_malformed_returns_witness:
  "index_js (split_js CHR ''/'' (replace_first ''%20'' '' '' ''/x/a+b'')) 2 = Some ''a+b'' \<and>
   CHR ''+'' \<in> set ''a+b'' \<and>
   useSelectedTags ''/x/a+b'' = Inr (None, None)"
  using useSelectedTags_malformed_returns [of "''/x/a+b''" "''a+b''"]
  by (simp add: index_js_def)

text \<open>No path at all makes the function fail.\<close>

theorem useSelectedTags_failure_counterexample:
  "\<not> (\<exists>pathname e. useSelectedTags pathname = Inl e)"
  using useSelectedTags_total by (metis Inl_Inr_False)

text \<open>
  Claim C9. Only the first \<open>%20\<close> of the path becomes a space: when \<open>%20\<close> does not occur
  before the end of \<open>a\<close>, the path \<open>a%20b\<close> is split as \<open>a b\<close>, with \<open>b\<close> as it is.
  So for a path \<open>s0/s1/lang:l1%20l2+topic:t\<close> with no \<open>%\<close> before \<open>l1\<close> ends, the language
  returned is \<open>l1 l2\<close> and the topic is \<open>t\<close>, and every \<open>%20\<close> inside \<open>l2\<close> and \<open>t\<close> is
  returned verbatim.
\<close>

theorem useSelectedTags_first_space_only:
  "(\<not> sublist ''%20'' (a @ ''%2'') \<longrightarrow>
      replace_first ''%20'' '' '' (a @ ''%20'' @ b) = a @ '' '' @ b) \<and>
   (CHR ''%'' \<notin> set (s0 @ s1 @ l1) \<and> CHR ''/'' \<notin> set (s0 @ s1 @ l1 @ l2 @ t) \<and>
    CHR ''+'' \<notin> set (l1 @ l2 @ t) \<and> CHR '':'' \<notin> set (l1 @ l2 @ t) \<longrightarrow>
      useSelectedTags (s0 @ ''/'' @ s1 @ ''/lang:'' @ l1 @ ''%20'' @ l2 @ ''+topic:'' @ t) =
        Inr (Some (l1 @ '' '' @ l2), Some t))"
proof (intro conjI impI)
  assume "\<not> sublist ''%20'' (a @ ''%2'')"
  then show "replace_first ''%20'' '' '' (a @ ''%20'' @ b) = a @ '' '' @ b"
    using replace_first_occurrence [of "''%20''" a "'' ''" b] by simp
next
  assume h: "CHR ''%'' \<notin> set (s0 @ s1 @ l1) \<and> CHR ''/'' \<notin> set (s0 @ s1 @ l1 @ l2 @ t) \<and>
    CHR ''+'' \<notin> set (l1 @ l2 @ t) \<and> CHR '':'' \<notin> set (l1 @ l2 @ t)"
  let ?a = "s0 @ ''/'' @ s1 @ ''/lang:'' @ l1"
  let ?b = "l2 @ ''+topic:'' @ t"
  have "CHR ''%'' \<notin> set ?a" using h by simp
  then have "\<not> sublist ''%20'' (?a @ butlast ''%20'')"
    using no_percent_no_occurrence [of ?a] by simp
  then have "replace_first ''%20'' '' '' (?a @ ''%20'' @ ?b) = ?a @ '' '' @ ?b"
    by (intro replace_first_occurrence) simp_all
  then have "replace_first ''%20'' '' ''
        (s0 @ ''/'' @ s1 @ ''/lang:'' @ l1 @ ''%20'' @ l2 @ ''+topic:'' @ t) =
      s0 @ ''/'' @ s1 @ ''/'' @ (''lang:'' @ (l1 @ '' '' @ l2) @ ''+topic:'' @ t) @ []"
    by simp
  then show "useSelectedTags
        (s0 @ ''/'' @ s1 @ ''/lang:'' @ l1 @ ''%20'' @ l2 @ ''+topic:'' @ t) =
      Inr (Some (l1 @ '' '' @ l2), Some t)"
    by (rule useSelectedTags_segment) (use h in simp_all)
qed

theorem useSelectedTags_first_space_only_witness:
  "\<not> sublist ''%20'' (''/x/lang:a'' @ ''%2'') \<and>
   replace_first ''%20'' '' '' ''/x/lang:a%20b%20c+topic:d%20e'' = ''/x/lang:a b%20c+topic:d%20e'' \<and>
   useSelectedTags ''/x/lang:a%20b%20c+topic:d%20e'' = Inr (Some ''a b%20c'', Some ''d%20e'')"
  using useSelectedTags_first_space_only
    [of "''/x/lang:a''" "''b%20c+topic:d%20e''" "[]" "''x''" "''a''" "''b%20c''" "''d%20e''"]
  by (simp add: sublist_Cons_right)

section \<open>Properties of \<open>useImages\<close>\<close>

lemma find_append_js:
  "find P (xs @ ys) = (case find P xs of None \<Rightarrow> find P ys | Some x \<Rightarrow> Some x)"
  by (induction xs) auto

lemma images_loop_ok:
  assumes "\<forall>n \<in> set nodes. childImageSharp n \<noteq> None"
    and "\<forall>n \<in> set nodes. property_key n property \<noteq> ''__proto__''"
  shows "\<exists>images. images_loop nodes property acc = Inr images \<and>
           (\<forall>k. images k =
              (case find (\<lambda>n. property_key n property = k) (rev nodes) of
                 None \<Rightarrow> acc k
               | Some n \<Rightarrow> node_payload n))"
  using assms
proof (induction nodes arbitrary: acc)
  case Nil
  then show ?case by simp
next
  case (Cons node nodes)
  then obtain sharp where sharp: "childImageSharp node = Some sharp" by auto
  let ?acc = "acc(property_key node property \<mapsto> gatsbyImageData sharp)"
  have assign: "assign_property acc (property_key node property) (gatsbyImageData sharp) = ?acc"
    using Cons.prems(2) by (simp add: assign_property_def)
  from Cons.prems have "\<forall>n \<in> set nodes. childImageSharp n \<noteq> None"
    and "\<forall>n \<in> set nodes. property_key n property \<noteq> ''__proto__''" by simp_all
  from Cons.IH [OF this, of ?acc] obtain images where
    run: "images_loop nodes property ?acc = Inr images" and
    look: "\<And>k. images k =
              (case find (\<lambda>n. property_key n property = k) (rev nodes) of
                 None \<Rightarrow> ?acc k
               | Some n \<Rightarrow> node_payload n)" by blast
  have "images k =
              (case find (\<lambda>n. property_key n property = k) (rev (node # nodes)) of
                 None \<Rightarrow> acc k
               | Some n \<Rightarrow> node_payload n)" for k
    using look [of k] sharp
    by (auto simp: find_append_js node_payload_def split: option.splits)
  with run sharp assign show ?case by simp
qed

lemma images_loop_error:
  assumes "\<exists>n \<in> set nodes. childImageSharp n = None"
  shows "images_loop nodes property acc = Inl TypeError"
  using assms
  by (induction nodes arbitrary: acc) (auto split: option.splits)


lemma find_key_image:
  "(find (\<lambda>n. f n = k) xs \<noteq> None) = (k \<in> f ` set xs)"
  by (induction xs) auto

lemma find_SomeD: "find P xs = Some x \<Longrightarrow> P x \<and> x \<in> set xs"
  by (induction xs) (auto split: if_splits)

lemma example_node_simps:
  "property_key (example_node name payload) ''name'' = name"
  "childImageSharp (example_node name payload) = Some \<lparr>gatsbyImageData = payload\<rparr>"
  "node_payload (example_node name payload) = Some payload"
  by (simp_all add: example_node_def property_key_def node_payload_def)

text \<open>A node without \<open>childImageSharp\<close> makes the loop throw.\<close>

lemma useImages_without_childImageSharp:
  "\<exists>n \<in> set nodes. childImageSharp n = None \<Longrightarrow> useImages nodes property_arg = Inl TypeError"
  by (simp add: useImages_def images_loop_error)

text \<open>
  Claim C6, as the code has it. For a list of nodes that each carry their image payload
  and of which none has the key \<open>__proto__\<close>, and for the key property given (or
  \<open>name\<close>), \<open>useImages\<close> returns a mapping and raises nothing. Its keys are exactly the
  keys of the nodes; the value at a key is the payload of the last node with that key, so
  a later node overwrites an earlier one with the same key; and when no two nodes share a
  key, the mapping has as many entries as there are nodes and every node finds its own
  payload at its key.
\<close>

theorem useImages_index:
  assumes "\<forall>n \<in> set nodes. childImageSharp n \<noteq> None"
    and "property = (case property_arg of None \<Rightarrow> ''name'' | Some p \<Rightarrow> p)"
    and "\<forall>n \<in> set nodes. property_key n property \<noteq> ''__proto__''"
  shows "\<exists>images. useImages nodes property_arg = Inr images \<and>
           dom images = (\<lambda>n. property_key n property) ` set nodes \<and>
           (\<forall>k. images k =
              (case find (\<lambda>n. property_key n property = k) (rev nodes) of
                 None \<Rightarrow> None
               | Some n \<Rightarrow> node_payload n)) \<and>
           (distinct (map (\<lambda>n. property_key n property) nodes) \<longrightarrow>
              card (dom images) = length nodes \<and>
              (\<forall>n \<in> set nodes. images (property_key n property) = node_payload n))"
proof -
  let ?key = "\<lambda>n. property_key n property"
  obtain images where run: "images_loop nodes property Map.empty = Inr images"
    and look: "\<And>k. images k =
              (case find (\<lambda>n. ?key n = k) (rev nodes) of
                 None \<Rightarrow> None
               | Some n \<Rightarrow> node_payload n)"
    using images_loop_ok [OF assms(1) assms(3), of Map.empty] by auto
  have payload: "node_payload n \<noteq> None" if "n \<in> set nodes" for n
    using that assms(1) by (simp add: node_payload_def)
  have dom: "dom images = ?key ` set nodes"
  proof (rule set_eqI)
    fix k
    show "k \<in> dom images \<longleftrightarrow> k \<in> ?key ` set nodes"
    proof (cases "find (\<lambda>n. ?key n = k) (rev nodes)")
      case None
      then show ?thesis using look [of k] find_key_image [of ?key k "rev nodes"] by auto
    next
      case (Some n)
      then have "n \<in> set nodes" using find_SomeD by fastforce
      then show ?thesis
        using Some look [of k] payload find_key_image [of ?key k "rev nodes"] by auto
    qed
  qed
  have uniq: "card (dom images) = length nodes \<and>
              (\<forall>n \<in> set nodes. images (?key n) = node_payload n)"
    if d: "distinct (map ?key nodes)"
  proof
    show "card (dom images) = length nodes"
      using d dom by (metis distinct_card length_map set_map)
    show "\<forall>n \<in> set nodes. images (?key n) = node_payload n"
    proof
      fix n assume n: "n \<in> set nodes"
      then obtain m where m: "find (\<lambda>x. ?key x = ?key n) (rev nodes) = Some m"
        using find_key_image [of ?key "?key n" "rev nodes"] by auto
      then have "?key m = ?key n" "m \<in> set nodes" using find_SomeD by fastforce+
      then have "m = n" using d n by (meson distinct_map inj_onD)
      then show "images (?key n) = node_payload n" using look [of "?key n"] m by simp
    qed
  qed
  show ?thesis
    using run dom look uniq by (auto simp: useImages_def assms(2))
qed

text \<open>
  Two nodes named \<open>a\<close> and \<open>b\<close> give two entries; with a third node named \<open>a\<close> again,
  the entry of \<open>a\<close> is the payload of the third.
\<close>

theorem useImages_index_witness:
  "(\<exists>images.
      useImages [example_node ''a'' 1, example_node ''b'' 2] None = Inr images \<and>
      dom images = {''a'', ''b''} \<and> card (dom images) = 2 \<and>
      images ''a'' = Some 1 \<and> images ''b'' = Some 2) \<and>
   (\<exists>images.
      useImages [example_node ''a'' 1, example_node ''b'' 2, example_node ''a'' 3] None =
        Inr images \<and>
      dom images = {''a'', ''b''} \<and> images ''a'' = Some 3 \<and> images ''b'' = Some 2)"
proof
  let ?nodes = "[example_node ''a'' 1, example_node ''b'' 2]"
  have all: "\<forall>n \<in> set ?nodes. childImageSharp n \<noteq> None"
    by (simp add: example_node_simps)
  have name: "''name'' = (case None :: string option of None \<Rightarrow> ''name'' | Some p \<Rightarrow> p)"
    by simp
  have plain: "\<forall>n \<in> set ?nodes. property_key n ''name'' \<noteq> ''__proto__''"
    by (simp add: example_node_simps)
  from useImages_index [OF all name plain] obtain images where
    run: "useImages ?nodes None = Inr images" and
    keys: "dom images = (\<lambda>n. property_key n ''name'') ` set ?nodes" and
    look: "\<And>k. images k =
        (case find (\<lambda>n. property_key n ''name'' = k) (rev ?nodes) of
           None \<Rightarrow> None | Some n \<Rightarrow> node_payload n)" and
    uniq: "distinct (map (\<lambda>n. property_key n ''name'') ?nodes) \<longrightarrow>
        card (dom images) = length ?nodes \<and>
        (\<forall>n \<in> set ?nodes. images (property_key n ''name'') = node_payload n)"
    by blast
  have "dom images = {''a'', ''b''}" using keys by (simp add: example_node_simps)
  moreover have "card (dom images) = 2" using uniq by (simp add: example_node_simps)
  moreover have "images ''a'' = Some 1" using look [of "''a''"] by (simp add: example_node_simps)
  moreover have "images ''b'' = Some 2" using look [of "''b''"] by (simp add: example_node_simps)
  ultimately show "\<exists>images.
      useImages ?nodes None = Inr images \<and>
      dom images = {''a'', ''b''} \<and> card (dom images) = 2 \<and>
      images ''a'' = Some 1 \<and> images ''b'' = Some 2"
    using run by blast
next
  let ?nodes = "[example_node ''a'' 1, example_node ''b'' 2, example_node ''a'' 3]"
  have all: "\<forall>n \<in> set ?nodes. childImageSharp n \<noteq> None"
    by (simp add: example_node_simps)
  have name: "''name'' = (case None :: string option of None \<Rightarrow> ''name'' | Some p \<Rightarrow> p)"
    by simp
  have plain: "\<forall>n \<in> set ?nodes. property_key n ''name'' \<noteq> ''__proto__''"
    by (simp add: example_node_simps)
  from useImages_index [OF all name plain] obtain images where
    run: "useImages ?nodes None = Inr images" and
    keys: "dom images = (\<lambda>n. property_key n ''name'') ` set ?nodes" and
    look: "\<And>k. images k =
        (case find (\<lambda>n. property_key n ''name'' = k) (rev ?nodes) of
           None \<Rightarrow> None | Some n \<Rightarrow> node_payload n)"
    by blast
  have "dom images = {''a'', ''b''}" using keys by (auto simp: example_node_simps)
  moreover have "images ''a'' = Some 3" using look [of "''a''"] by (simp add: example_node_simps)
  moreover have "images ''b'' = Some 2" using look [of "''b''"] by (simp add: example_node_simps)
  ultimately show "\<exists>images.
      useImages ?nodes None = Inr images \<and>
      dom images = {''a'', ''b''} \<and> images ''a'' = Some 3 \<and> images ''b'' = Some 2"
    using run by blast
qed

text \<open>
  Two nodes named \<open>__proto__\<close> and \<open>a\<close> have different keys and carry their payloads,
  yet the mapping returned has the single key \<open>a\<close>.
\<close>

theorem useImages_proto_key_counterexample:
  "distinct (map (\<lambda>n. property_key n ''name'')
      [example_node ''__proto__'' 1, example_node ''a'' 2]) \<and>
   (\<exists>images.
      useImages [example_node ''__proto__'' 1, example_node ''a'' 2] None = Inr images \<and>
      dom images = {''a''} \<and> card (dom images) = 1 \<and> images ''a'' = Some 2 \<and>
      dom images \<noteq> (\<lambda>n. property_key n ''name'') `
        set [example_node ''__proto__'' 1, example_node ''a'' 2] \<and>
      card (dom images) \<noteq> length [example_node ''__proto__'' 1, example_node ''a'' 2])"
proof -
  have run: "useImages [example_node ''__proto__'' 1, example_node ''a'' 2] None =
      Inr [''a'' \<mapsto> 2]"
    by (simp add: useImages_def example_node_simps assign_property_def)
  have keys: "dom [''a'' \<mapsto> 2::nat] = {''a''}" by simp
  have "distinct (map (\<lambda>n. property_key n ''name'')
      [example_node ''__proto__'' 1, example_node ''a'' 2])"
    by (simp add: example_node_simps)
  moreover have "dom [''a'' \<mapsto> 2::nat] \<noteq> (\<lambda>n. property_key n ''name'') `
        set [example_node ''__proto__'' 1, example_node ''a'' 2]"
    unfolding keys by (simp add: example_node_simps)
  moreover have "card (dom [''a'' \<mapsto> 2::nat]) = 1" unfolding keys by simp
  ultimately show ?thesis using run keys by (intro conjI exI [of _ "[''a'' \<mapsto> 2]"]) simp_all
qed

section \<open>Properties of \<open>updateYTDesc\<close>\<close>

lemma updateYTDesc_no_prompt:
  "Prompt m c \<notin> set (updateYTDesc videoId newDescription service)"
  by (auto simp: updateYTDesc_def Let_def split: sum.splits list.splits if_splits)

lemma updateYTDesc_no_uncaught:
  "Uncaught err \<notin> set (updateYTDesc videoId newDescription service)"
  by (auto simp: updateYTDesc_def Let_def split: sum.splits list.splits if_splits)

text \<open>
  Claim C2. When the list call answers with a video whose description is the new
  description, the run is the list call followed by the message that the description is
  already up to date, and holds no update call. An update call appears in a run only when
  the list call answered with a video whose description differs from the new one.
\<close>

theorem updateYTDesc_up_to_date:
  "(videos_list service videoId = Inr (video # rest) \<and>
    snippet_description video = newDescription \<longrightarrow>
      updateYTDesc videoId newDescription service =
        [VideosList videoId, ConsoleLog ''Description is already up to date.''] \<and>
      (\<forall>body. VideosUpdate body \<notin> set (updateYTDesc videoId newDescription service))) \<and>
   (VideosUpdate body \<in> set (updateYTDesc videoId newDescription service) \<longrightarrow>
      (\<exists>video rest. videos_list service videoId = Inr (video # rest) \<and>
         snippet_description video \<noteq> newDescription))"
  by (auto simp: updateYTDesc_def Let_def split: sum.splits list.splits if_splits)

theorem updateYTDesc_up_to_date_witness:
  "updateYTDesc ''abc'' ''old'' example_service =
     [VideosList ''abc'', ConsoleLog ''Description is already up to date.''] \<and>
   VideosUpdate
     \<lparr>requestBody_id = ''abc'',
      requestBody_snippet = \<lparr>snippet_title = ''T'', snippet_description = ''new'',
                             snippet_categoryId = ''27''\<rparr>\<rparr>
     \<in> set (updateYTDesc ''abc'' ''new'' example_service) \<and>
   (\<exists>video rest. videos_list example_service ''abc'' = Inr (video # rest) \<and>
      snippet_description video \<noteq> ''new'')"
proof -
  have shown: "VideosUpdate
     \<lparr>requestBody_id = ''abc'',
      requestBody_snippet = \<lparr>snippet_title = ''T'', snippet_description = ''new'',
                             snippet_categoryId = ''27''\<rparr>\<rparr>
     \<in> set (updateYTDesc ''abc'' ''new'' example_service)"
    by (simp add: updateYTDesc_def example_service_def)
  have listed: "videos_list example_service ''abc'' =
      Inr (\<lparr>snippet_title = ''T'', snippet_description = ''old'',
             snippet_categoryId = ''27''\<rparr> # [])"
    by (simp add: example_service_def)
  from updateYTDesc_up_to_date
    [of example_service "''abc''"
       "\<lparr>snippet_title = ''T'', snippet_description = ''old'', snippet_categoryId = ''27''\<rparr>"
       "[]" "''old''"] listed
  have same: "updateYTDesc ''abc'' ''old'' example_service =
     [VideosList ''abc'', ConsoleLog ''Description is already up to date.'']"
    by simp
  from updateYTDesc_up_to_date
    [of example_service "''abc''" _ _ "''new''"
       "\<lparr>requestBody_id = ''abc'',
         requestBody_snippet = \<lparr>snippet_title = ''T'', snippet_description = ''new'',
                                snippet_categoryId = ''27''\<rparr>\<rparr>"] shown
  have "\<exists>video rest. videos_list example_service ''abc'' = Inr (video # rest) \<and>
      snippet_description video \<noteq> ''new''"
    by blast
  with same shown show ?thesis by blast
qed

text \<open>
  Claim C5. The body of an update call carries the id of the video, the title and the
  category of the snippet that the list call returned, and the new description; a run
  holds one update call at most.
\<close>

theorem updateYTDesc_preserves_fields:
  assumes "VideosUpdate body \<in> set (updateYTDesc videoId newDescription service)"
  shows "\<exists>video rest. videos_list service videoId = Inr (video # rest) \<and>
           requestBody_id body = videoId \<and>
           snippet_title (requestBody_snippet body) = snippet_title video \<and>
           snippet_categoryId (requestBody_snippet body) = snippet_categoryId video \<and>
           snippet_description (requestBody_snippet body) = newDescription \<and>
           length (filter (\<lambda>e. \<exists>b. e = VideosUpdate b)
                     (updateYTDesc videoId newDescription service)) = 1"
  using assms
  by (auto simp: updateYTDesc_def Let_def split: sum.splits list.splits if_splits)

theorem updateYTDesc_preserves_fields_witness:
  "updateYTDesc ''abc'' ''new'' example_service =
     [VideosList ''abc'',
      VideosUpdate
        \<lparr>requestBody_id = ''abc'',
         requestBody_snippet = \<lparr>snippet_title = ''T'', snippet_description = ''new'',
                                snippet_categoryId = ''27''\<rparr>\<rparr>,
      ConsoleLog ''Updated video description.''] \<and>
   (\<exists>video rest. videos_list example_service ''abc'' = Inr (video # rest) \<and>
      snippet_title video = ''T'' \<and> snippet_categoryId video = ''27'')"
proof -
  have run: "updateYTDesc ''abc'' ''new'' example_service =
     [VideosList ''abc'',
      VideosUpdate
        \<lparr>requestBody_id = ''abc'',
         requestBody_snippet = \<lparr>snippet_title = ''T'', snippet_description = ''new'',
                                snippet_categoryId = ''27''\<rparr>\<rparr>,
      ConsoleLog ''Updated video description.'']"
    by (simp add: updateYTDesc_def example_service_def)
  then have "VideosUpdate
        \<lparr>requestBody_id = ''abc'',
         requestBody_snippet = \<lparr>snippet_title = ''T'', snippet_description = ''new'',
                                snippet_categoryId = ''27''\<rparr>\<rparr>
      \<in> set (updateYTDesc ''abc'' ''new'' example_service)"
    by simp
  from updateYTDesc_preserves_fields [OF this]
  have "\<exists>video rest. videos_list example_service ''abc'' = Inr (video # rest) \<and>
      snippet_title video = ''T'' \<and> snippet_categoryId video = ''27''"
    by auto
  with run show ?thesis by blast
qed

section \<open>Properties of the track index\<close>

text \<open>The two lists that \<open>main_tracks\<close> puts together.\<close>

lemma main_tracks_eq:
  "main_tracks md videos =
     filter (\<lambda>t. track_videos t \<noteq> [])
       (map (\<lambda>mt. mt\<lparr>track_videos := filter (\<lambda>v. video_canonicalTrack v = track_slug mt) videos\<rparr>)
          (metadata_tracks md)) @
     (if filter (\<lambda>v. startsWith (video_canonicalURL v) ''challenges'') videos \<noteq> []
      then [\<lparr>track_slug = ''challenges'', track_title = ''Coding Challenges'',
              track_videos = filter (\<lambda>v. startsWith (video_canonicalURL v) ''challenges'') videos\<rparr>]
      else [])"
  by (simp add: main_tracks_def Let_def)

lemma length_filter_map_tracks:
  "length (filter (\<lambda>t. track_videos t \<noteq> [])
       (map (\<lambda>mt. mt\<lparr>track_videos := f mt\<rparr>) mts)) =
   length (filter (\<lambda>mt. f mt \<noteq> []) mts)"
  by (induction mts) auto

text \<open>
  Claim C7. Every candidate video whose canonical URL starts with \<open>challenges\<close> is in the
  last track offered, which has the slug \<open>challenges\<close>, the title \<open>Coding Challenges\<close>
  and exactly the challenge videos; without such a video every track offered is a track of
  the metadata with its matching videos. Every track offered has a video, every metadata
  track with a matching video is offered, and the number of tracks offered is the number
  of metadata tracks with a matching video, plus one when there is a challenge video: a
  metadata track without matching videos is not offered.
\<close>

theorem main_tracks_grouping:
  "(\<forall>v \<in> set videos. startsWith (video_canonicalURL v) ''challenges'' \<longrightarrow>
      main_tracks md videos \<noteq> [] \<and>
      last (main_tracks md videos) =
        \<lparr>track_slug = ''challenges'', track_title = ''Coding Challenges'',
         track_videos = filter (\<lambda>v. startsWith (video_canonicalURL v) ''challenges'') videos\<rparr> \<and>
      v \<in> set (track_videos (last (main_tracks md videos)))) \<and>
   ((\<forall>v \<in> set videos. \<not> startsWith (video_canonicalURL v) ''challenges'') \<longrightarrow>
      (\<forall>t \<in> set (main_tracks md videos). \<exists>mt \<in> set (metadata_tracks md).
         t = mt\<lparr>track_videos := filter (\<lambda>v. video_canonicalTrack v = track_slug mt) videos\<rparr>)) \<and>
   (\<forall>t \<in> set (main_tracks md videos). track_videos t \<noteq> []) \<and>
   (\<forall>mt \<in> set (metadata_tracks md).
      filter (\<lambda>v. video_canonicalTrack v = track_slug mt) videos \<noteq> [] \<longrightarrow>
      mt\<lparr>track_videos := filter (\<lambda>v. video_canonicalTrack v = track_slug mt) videos\<rparr>
        \<in> set (main_tracks md videos)) \<and>
   length (main_tracks md videos) =
     length (filter (\<lambda>mt. filter (\<lambda>v. video_canonicalTrack v = track_slug mt) videos \<noteq> [])
        (metadata_tracks md)) +
     (if \<exists>v \<in> set videos. startsWith (video_canonicalURL v) ''challenges'' then 1 else 0)"
proof (intro conjI)
  show "\<forall>v \<in> set videos. startsWith (video_canonicalURL v) ''challenges'' \<longrightarrow>
      main_tracks md videos \<noteq> [] \<and>
      last (main_tracks md videos) =
        \<lparr>track_slug = ''challenges'', track_title = ''Coding Challenges'',
         track_videos = filter (\<lambda>v. startsWith (video_canonicalURL v) ''challenges'') videos\<rparr> \<and>
      v \<in> set (track_videos (last (main_tracks md videos)))"
    by (auto simp: main_tracks_eq filter_empty_conv)
  show "(\<forall>v \<in> set videos. \<not> startsWith (video_canonicalURL v) ''challenges'') \<longrightarrow>
      (\<forall>t \<in> set (main_tracks md videos). \<exists>mt \<in> set (metadata_tracks md).
         t = mt\<lparr>track_videos := filter (\<lambda>v. video_canonicalTrack v = track_slug mt) videos\<rparr>)"
    by (auto simp: main_tracks_eq filter_empty_conv)
  show "\<forall>t \<in> set (main_tracks md videos). track_videos t \<noteq> []"
    by (auto simp: main_tracks_eq)
  show "\<forall>mt \<in> set (metadata_tracks md).
      filter (\<lambda>v. video_canonicalTrack v = track_slug mt) videos \<noteq> [] \<longrightarrow>
      mt\<lparr>track_videos := filter (\<lambda>v. video_canonicalTrack v = track_slug mt) videos\<rparr>
        \<in> set (main_tracks md videos)"
    by (auto simp: main_tracks_eq)
  show "length (main_tracks md videos) =
     length (filter (\<lambda>mt. filter (\<lambda>v. video_canonicalTrack v = track_slug mt) videos \<noteq> [])
        (metadata_tracks md)) +
     (if \<exists>v \<in> set videos. startsWith (video_canonicalURL v) ''challenges'' then 1 else 0)"
    unfolding main_tracks_eq length_append length_filter_map_tracks
    by (auto simp: filter_empty_conv)
qed

theorem main_tracks_grouping_witness:
  "last (main_tracks example_metadata (metadata_videos example_metadata)) =
     \<lparr>track_slug = ''challenges'', track_title = ''Coding Challenges'',
      track_videos = metadata_videos example_metadata\<rparr> \<and>
   length (main_tracks example_metadata (metadata_videos example_metadata)) = 2 \<and>
   length (main_tracks example_metadata []) = 0"
proof -
  let ?v = "hd (metadata_videos example_metadata)"
  have v: "?v \<in> set (metadata_videos example_metadata)"
    "startsWith (video_canonicalURL ?v) ''challenges''"
    by (simp_all add: example_metadata_def startsWith_def)
  from main_tracks_grouping [of "metadata_videos example_metadata" example_metadata] v
  have "last (main_tracks example_metadata (metadata_videos example_metadata)) =
     \<lparr>track_slug = ''challenges'', track_title = ''Coding Challenges'',
      track_videos = filter (\<lambda>v. startsWith (video_canonicalURL v) ''challenges'')
                       (metadata_videos example_metadata)\<rparr>"
    by blast
  then have 1: "last (main_tracks example_metadata (metadata_videos example_metadata)) =
     \<lparr>track_slug = ''challenges'', track_title = ''Coding Challenges'',
      track_videos = metadata_videos example_metadata\<rparr>"
    by (simp add: example_metadata_def startsWith_def)
  from main_tracks_grouping [of "metadata_videos example_metadata" example_metadata]
  have "length (main_tracks example_metadata (metadata_videos example_metadata)) =
     length (filter (\<lambda>mt. filter (\<lambda>v. video_canonicalTrack v = track_slug mt)
                 (metadata_videos example_metadata) \<noteq> [])
        (metadata_tracks example_metadata)) +
     (if \<exists>v \<in> set (metadata_videos example_metadata).
           startsWith (video_canonicalURL v) ''challenges'' then 1 else 0)"
    by blast
  then have 2: "length (main_tracks example_metadata (metadata_videos example_metadata)) = 2"
    by (simp add: example_metadata_def startsWith_def)
  from main_tracks_grouping [of "[]" example_metadata]
  have 3: "length (main_tracks example_metadata []) = 0"
    by simp
  from 1 2 3 show ?thesis by blast
qed



section \<open>Properties of \<open>main\<close>\<close>

lemmas example_defs = example_world_def example_service_def example_metadata_def
  files_only_metadata_def files_other_slug_def files_consistent_def
lemmas main_defs = main_def main_select_def main_tracks_def main_videos_def main_videoIds_def
  entry_videoId_def endsWith_def includes_js_def startsWith_def description_file_def updateYTDesc_def
  Let_def

lemma main_select_video_prompt:
  assumes "Prompt ''Select a video to update:'' choices \<in> set (main_select w service files tracks)"
  shows "\<exists>track \<in> set tracks. choices =
           map (\<lambda>video. (video_title video @ '' ('' @ video_videoId video @ '')'', video_videoId video))
             (track_videos track)"
  using assms
  by (auto simp: main_select_def Let_def updateYTDesc_no_prompt split: option.splits
      dest: find_SomeD)

lemma main_select_read:
  assumes "\<forall>track \<in> set tracks. \<forall>v \<in> set (track_videos track). map_of files (description_file v) \<noteq> None"
  shows "Uncaught (ENOENT p) \<notin> set (main_select w service files tracks)"
proof -
  have present: "map_of files (description_file v) \<noteq> None"
    if "find P tracks = Some track" "find Q (track_videos track) = Some v" for P Q track v
  proof -
    have "track \<in> set tracks" "v \<in> set (track_videos track)"
      using that find_SomeD by fastforce+
    with assms show ?thesis by blast
  qed
  show ?thesis
  proof
    assume "Uncaught (ENOENT p) \<in> set (main_select w service files tracks)"
    then obtain track v P Q where "find P tracks = Some track"
      "find Q (track_videos track) = Some v" "map_of files (description_file v) = None"
      by (auto simp: main_select_def Let_def updateYTDesc_no_uncaught split: option.splits)
    with present show False by blast
  qed
qed

lemma main_reaches_select:
  assumes "client_secret w = Inr content" and "authorize w content = Inr service"
    and "descriptions w = Some files" and "map_of files ''metadata.json'' = Some text"
    and "parse_metadata w text = Inr md"
  shows "main w = main_select w service files
           (main_tracks md (main_videos md (main_videoIds (map fst files))))"
proof -
  have "files \<noteq> []" using assms(4) by auto
  then show ?thesis using assms by (simp add: main_def)
qed

lemma offered_video:
  assumes "track \<in> set (main_tracks md (main_videos md (main_videoIds entries)))"
    and "v \<in> set (track_videos track)"
  shows "v \<in> set (metadata_videos md) \<and>
         (\<exists>f \<in> set entries. \<not> endsWith f ''json'' \<and> entry_videoId f = video_videoId v)"
proof -
  have "v \<in> set (main_videos md (main_videoIds entries))"
    using assms by (auto simp: main_tracks_def Let_def split: if_splits)
  then show ?thesis
    by (auto simp: main_videos_def main_videoIds_def includes_js_def)
qed

text \<open>
  Claim C3, as the code has it. In a run that has read the secret, the directory and the
  metadata, every video shown in the video prompt is a video of the metadata whose id is
  the id part of some entry of \<open>_descriptions\<close> that does not end in \<open>json\<close>. When the
  entries are named after the videos of the metadata (each such entry with the id of a
  metadata video is the file \<open>slug_videoId.txt\<close> of that video), the description file of
  every video shown is in the directory, and no read of the run fails.
\<close>

theorem main_offers_videos_with_entry:
  assumes "client_secret w = Inr content" and "authorize w content = Inr service"
    and "descriptions w = Some files" and "map_of files ''metadata.json'' = Some text"
    and "parse_metadata w text = Inr md"
  shows "(\<forall>choices. Prompt ''Select a video to update:'' choices \<in> set (main w) \<longrightarrow>
           (\<forall>c \<in> set choices. \<exists>v \<in> set (metadata_videos md).
              c = (video_title v @ '' ('' @ video_videoId v @ '')'', video_videoId v) \<and>
              (\<exists>f \<in> fst ` set files. \<not> endsWith f ''json'' \<and>
                 entry_videoId f = video_videoId v))) \<and>
         ((\<forall>f \<in> fst ` set files. \<forall>u \<in> set (metadata_videos md).
             \<not> endsWith f ''json'' \<and> entry_videoId f = video_videoId u \<longrightarrow>
             f = description_file u) \<longrightarrow>
          (\<forall>choices. Prompt ''Select a video to update:'' choices \<in> set (main w) \<longrightarrow>
             (\<forall>c \<in> set choices. \<exists>v \<in> set (metadata_videos md).
                c = (video_title v @ '' ('' @ video_videoId v @ '')'', video_videoId v) \<and>
                map_of files (description_file v) \<noteq> None)) \<and>
          (\<forall>p. Uncaught (ENOENT p) \<notin> set (main w)))"
proof -
  let ?tracks = "main_tracks md (main_videos md (main_videoIds (map fst files)))"
  let ?choice = "\<lambda>v. (video_title v @ '' ('' @ video_videoId v @ '')'', video_videoId v)"
  have run: "main w = main_select w service files ?tracks"
    using assms by (rule main_reaches_select)
  have entry: "v \<in> set (metadata_videos md) \<and>
      (\<exists>f \<in> fst ` set files. \<not> endsWith f ''json'' \<and> entry_videoId f = video_videoId v)"
    if "track \<in> set ?tracks" "v \<in> set (track_videos track)" for track v
    using offered_video [OF that] by simp
  have shown: "\<exists>track \<in> set ?tracks. choices = map ?choice (track_videos track)"
    if "Prompt ''Select a video to update:'' choices \<in> set (main w)" for choices
    using that unfolding run by (rule main_select_video_prompt)
  have first: "\<forall>c \<in> set choices. \<exists>v \<in> set (metadata_videos md). c = ?choice v \<and>
              (\<exists>f \<in> fst ` set files. \<not> endsWith f ''json'' \<and>
                 entry_videoId f = video_videoId v)"
    if "Prompt ''Select a video to update:'' choices \<in> set (main w)" for choices
  proof
    fix c assume c: "c \<in> set choices"
    from shown [OF that] obtain track where
      t: "track \<in> set ?tracks" "choices = map ?choice (track_videos track)" by blast
    with c obtain v where v: "v \<in> set (track_videos track)" "c = ?choice v" by auto
    with entry [OF t(1) v(1)] show "\<exists>v \<in> set (metadata_videos md). c = ?choice v \<and>
              (\<exists>f \<in> fst ` set files. \<not> endsWith f ''json'' \<and>
                 entry_videoId f = video_videoId v)" by blast
  qed
  have second: "(\<forall>choices. Prompt ''Select a video to update:'' choices \<in> set (main w) \<longrightarrow>
             (\<forall>c \<in> set choices. \<exists>v \<in> set (metadata_videos md). c = ?choice v \<and>
                map_of files (description_file v) \<noteq> None)) \<and>
          (\<forall>p. Uncaught (ENOENT p) \<notin> set (main w))"
    if named: "\<forall>f \<in> fst ` set files. \<forall>u \<in> set (metadata_videos md).
             \<not> endsWith f ''json'' \<and> entry_videoId f = video_videoId u \<longrightarrow>
             f = description_file u"
  proof -
    have present: "map_of files (description_file v) \<noteq> None"
      if "track \<in> set ?tracks" "v \<in> set (track_videos track)" for track v
    proof -
      from entry [OF that] obtain f where
        "v \<in> set (metadata_videos md)" "f \<in> fst ` set files"
        "\<not> endsWith f ''json''" "entry_videoId f = video_videoId v" by blast
      with named have "description_file v \<in> fst ` set files" by metis
      then show ?thesis by (simp add: map_of_eq_None_iff)
    qed
    have "\<forall>c \<in> set choices. \<exists>v \<in> set (metadata_videos md). c = ?choice v \<and>
                map_of files (description_file v) \<noteq> None"
      if "Prompt ''Select a video to update:'' choices \<in> set (main w)" for choices
    proof
      fix c assume c: "c \<in> set choices"
      from shown [OF that] obtain track where
        t: "track \<in> set ?tracks" "choices = map ?choice (track_videos track)" by blast
      with c obtain v where v: "v \<in> set (track_videos track)" "c = ?choice v" by auto
      with entry [OF t(1) v(1)] present [OF t(1) v(1)]
      show "\<exists>v \<in> set (metadata_videos md). c = ?choice v \<and>
                map_of files (description_file v) \<noteq> None" by blast
    qed
    moreover have "Uncaught (ENOENT p) \<notin> set (main w)" for p
      unfolding run by (rule main_select_read) (use present in blast)
    ultimately show ?thesis by blast
  qed
  from first second show ?thesis by blast
qed

theorem main_offers_videos_with_entry_witness:
  "Prompt ''Select a video to update:'' [(''T (abc)'', ''abc'')]
     \<in> set (main (example_world files_consistent)) \<and>
   map_of files_consistent ''bar_abc.txt'' = Some ''new'' \<and>
   (\<forall>p. Uncaught (ENOENT p) \<notin> set (main (example_world files_consistent)))"
proof -
  have named: "\<forall>f \<in> fst ` set files_consistent. \<forall>u \<in> set (metadata_videos example_metadata).
             \<not> endsWith f ''json'' \<and> entry_videoId f = video_videoId u \<longrightarrow>
             f = description_file u"
    by (simp add: example_defs main_defs)
  have shown: "Prompt ''Select a video to update:'' [(''T (abc)'', ''abc'')]
     \<in> set (main (example_world files_consistent))"
    by (simp add: example_defs main_defs)
  have present: "map_of files_consistent ''bar_abc.txt'' = Some ''new''"
    by (simp add: files_consistent_def)
  from main_offers_videos_with_entry
    [of "example_world files_consistent" "''{}''" example_service files_consistent "''{}''"
       example_metadata] named
  have "\<forall>p. Uncaught (ENOENT p) \<notin> set (main (example_world files_consistent))"
    by (simp add: example_world_def files_consistent_def)
  with shown present show ?thesis by blast
qed

text \<open>
  With a description file written for the slug \<open>foo\<close> and the id \<open>abc\<close>, the video with
  slug \<open>bar\<close> and id \<open>abc\<close> is shown, and the read of \<open>bar_abc.txt\<close> fails.
\<close>

theorem main_offers_video_without_file_counterexample:
  "main (example_world files_other_slug) =
     [Prompt ''Select a track to update:''
        [(''Track 1'', ''t1''), (''Coding Challenges'', ''challenges'')],
      Prompt ''Select a video to update:'' [(''T (abc)'', ''abc'')],
      ConsoleLog ''Updating description for video... T (abc)'',
      Uncaught (ENOENT ''_descriptions/bar_abc.txt'')] \<and>
   map_of files_other_slug ''bar_abc.txt'' = None"
  by (simp add: example_defs main_defs)

text \<open>
  Claim C8, as the code has it. When the directory \<open>_descriptions\<close> does not exist or has
  no entry, a run that has read the secret and is authorized prints the message that no
  generated descriptions are available and ends there; no run in that state reaches a
  prompt or a call to the video service.
\<close>

theorem main_no_descriptions:
  "(client_secret w = Inr content \<and> authorize w content = Inr service \<and>
    (descriptions w = None \<or> descriptions w = Some []) \<longrightarrow>
      main w = [ConsoleLog no_descriptions_message]) \<and>
   (descriptions w = None \<or> descriptions w = Some [] \<longrightarrow>
      (\<forall>e \<in> set (main w). (\<forall>m c. e \<noteq> Prompt m c) \<and> (\<forall>i. e \<noteq> VideosList i) \<and>
         (\<forall>b. e \<noteq> VideosUpdate b)))"
  by (auto simp: main_def split: sum.splits)

theorem main_no_descriptions_witness:
  "main ((example_world []) \<lparr>descriptions := None\<rparr>) = [ConsoleLog no_descriptions_message] \<and>
   main (example_world []) = [ConsoleLog no_descriptions_message]"
  using main_no_descriptions [of "(example_world []) \<lparr>descriptions := None\<rparr>" "''{}''" example_service]
    main_no_descriptions [of "example_world []" "''{}''" example_service]
  by (simp add: example_world_def)

text \<open>
  A directory that holds the metadata file and no description file is not empty: the run
  goes on to the track prompt, with no track to choose from.
\<close>

theorem main_only_metadata_counterexample:
  "map fst files_only_metadata = [''metadata.json''] \<and>
   main (example_world files_only_metadata) =
     [Prompt ''Select a track to update:'' [], Uncaught TypeError]"
  by (simp add: example_defs main_defs)

end
